theory Spec2Isabelle
  imports Main
begin

section \<open>The client of \<^verbatim>\<open>src/AbstractFactory.ts\<close>\<close>

text \<open>
  \<^verbatim>\<open>AbstractFactory\<close> owns a primary connection, an optional subscriber connection, two
  handler maps and (through its base class, the event bus) a list of listeners. The
  driver, the bus and the listeners are outside the class: what they do is recorded in a
  trace, in the order the class causes it, and what they answer is a value.

  Each method and each closure is run from its first statement to its last: where the
  source awaits, the model goes on with the answer, and no other event is taken in
  between. The listener runs of an emission are recorded where the emission is made.
\<close>

subsection \<open>Values\<close>

datatype topology = Standalone | Cluster

text \<open>
  \<^verbatim>\<open>Exception message status code\<close> is the \<^verbatim>\<open>Exception\<close> of the source,
  \<^verbatim>\<open>TypeError\<close> what a method call on \<^verbatim>\<open>undefined\<close> raises, \<^verbatim>\<open>Thrown\<close> an error
  raised by code outside the class (driver, listener, handler).
\<close>

datatype error =
    Exception string nat string
  | TypeError
  | Thrown string

text \<open>The values that travel through callbacks and emissions (\<^verbatim>\<open>any\<close> in the source).\<close>

datatype jsval =
    Undefined
  | Null
  | ErrV error
  | NodeV nat
  | StrV string
  | NumV int
  | NodeErrorV jsval jsval

fun truthy :: "jsval \<Rightarrow> bool" where
  "truthy Undefined = False"
| "truthy Null = False"
| "truthy (ErrV e) = True"
| "truthy (NodeV n) = True"
| "truthy (StrV s) = (s \<noteq> [])"
| "truthy (NumV n) = (n \<noteq> 0)"
| "truthy (NodeErrorV e a) = True"

text \<open>A missing argument of a callback is \<^verbatim>\<open>undefined\<close>.\<close>

definition arg :: "nat \<Rightarrow> jsval list \<Rightarrow> jsval" where
  "arg i args = (if i < length args then args ! i else Undefined)"

text \<open>
  A listener of the bus and a subscription handler are functions of the caller: an
  identity, and whether the call on the given data returns (\<^verbatim>\<open>None\<close>) or throws.
\<close>

datatype listener = Listener (lid: nat) (outcome: "jsval \<Rightarrow> error option")

datatype handler = Handler (hid: nat) (result: "jsval list \<Rightarrow> error option")

text \<open>The closure handed to the driver with a protocol-level subscribe.\<close>

datatype handshake =
    SubscribeDone string handler
  | PSubscribeDone string handler

text \<open>The closures the class attaches to a connection with \<^verbatim>\<open>on\<close>.\<close>

datatype callback =
    EmitName string
  | EmitArg string
  | EmitNodeError
  | PrimaryEnd
  | Message
  | PMessage
  | SubscriberEnd

text \<open>What the class asks of its collaborators, in order.\<close>

datatype action =
    RemoveAllListeners nat
  | ClearListeners
  | Emitted string jsval
  | ListenerRan string nat jsval
  | HandlerRan nat "jsval list"
  | MakeSubscriberConnection nat
  | DriverSubscribe nat string handshake
  | DriverPSubscribe nat string handshake
  | DriverUnsubscribe nat string
  | DriverPUnsubscribe nat string
  | DriverQuit nat
  | DriverDisconnect nat

subsection \<open>State\<close>

record conn =
  cid :: nat
  kind :: topology
  listeners :: "(string \<times> callback) list"

record client =
  connection :: conn
  subscriberConnection :: "conn option"
  subscriptions :: "string \<rightharpoonup> handler"
  psubscriptions :: "string \<rightharpoonup> handler"
  bus :: "(string \<times> listener) list"
  trace :: "action list"
  unhandled :: "error list"
  fresh :: nat

text \<open>The fields as the constructor leaves them, around a given primary connection.\<close>

definition fresh_client :: "conn \<Rightarrow> client" where
  "fresh_client c =
     \<lparr>connection = c, subscriberConnection = None,
      subscriptions = Map.empty, psubscriptions = Map.empty,
      bus = [], trace = [], unhandled = [], fresh = Suc (cid c)\<rparr>"

definition log :: "action list \<Rightarrow> client \<Rightarrow> client" where
  "log as s = s\<lparr>trace := trace s @ as\<rparr>"

subsection \<open>The event bus\<close>

definition listeners_of :: "string \<Rightarrow> client \<Rightarrow> listener list" where
  "listeners_of name s = map snd (filter (\<lambda>p. fst p = name) (bus s))"

fun first_error :: "error option list \<Rightarrow> error option" where
  "first_error [] = None"
| "first_error (None # rs) = first_error rs"
| "first_error (Some e # rs) = Some e"

text \<open>What an emission adds to the trace: the emission, then each listener run, in order.\<close>

definition emission :: "string \<Rightarrow> jsval \<Rightarrow> listener list \<Rightarrow> action list" where
  "emission name data ls = Emitted name data # map (\<lambda>l. ListenerRan name (lid l) data) ls"

text \<open>What the emission rejects with: the first error among its listeners.\<close>

definition failure :: "jsval \<Rightarrow> listener list \<Rightarrow> error option" where
  "failure data ls = first_error (map (\<lambda>l. outcome l data) ls)"

text \<open>
  Modelled from the spec: \<^verbatim>\<open>emit\<close> of the event bus, the base class of the client, whose
  code is not part of these sources. "Multiple listeners per event name are allowed and
  all are invoked on emission"; the emission "awaits all listeners", and a listener's
  error is what the awaited emission yields to the emission site.
\<close>

definition emit :: "string \<Rightarrow> jsval \<Rightarrow> client \<Rightarrow> error option \<times> client" where
  "emit name data s =
     (let ls = listeners_of name s
      in (failure data ls, log (emission name data ls) s))"

text \<open>\<^verbatim>\<open>try { await this.emit(name) } catch (error) { }\<close>\<close>

definition emit_swallowed :: "string \<Rightarrow> jsval \<Rightarrow> client \<Rightarrow> client" where
  "emit_swallowed name data s = snd (emit name data s)"

text \<open>
  \<^verbatim>\<open>this.emit(name, data)\<close> with nothing around it: the emission's promise is neither
  awaited nor caught, and a rejection of it is an unhandled one.
\<close>

definition emit_uncaught :: "string \<Rightarrow> jsval \<Rightarrow> client \<Rightarrow> client" where
  "emit_uncaught name data s =
     (case emit name data s of
        (None, s') \<Rightarrow> s'
      | (Some e, s') \<Rightarrow> s'\<lparr>unhandled := unhandled s' @ [e]\<rparr>)"

text \<open>The rejections that nothing catches, as a list.\<close>

definition escaped :: "error option \<Rightarrow> error list" where
  "escaped r = (case r of None \<Rightarrow> [] | Some e \<Rightarrow> [e])"

text \<open>\<^verbatim>\<open>clearListeners\<close> of the bus.\<close>

definition clearListeners :: "client \<Rightarrow> client" where
  "clearListeners s = log [ClearListeners] (s\<lparr>bus := []\<rparr>)"

subsection \<open>Connections\<close>

definition on_conn :: "string \<times> callback \<Rightarrow> conn \<Rightarrow> conn" where
  "on_conn l c = c\<lparr>listeners := listeners c @ [l]\<rparr>"

text \<open>\<^verbatim>\<open>this.connection.removeAllListeners()\<close>\<close>

definition removeAllListeners :: "client \<Rightarrow> client" where
  "removeAllListeners s =
     log [RemoveAllListeners (cid (connection s))]
       (s\<lparr>connection := (connection s)\<lparr>listeners := []\<rparr>\<rparr>)"

definition primary_wiring :: "(string \<times> callback) list" where
  "primary_wiring =
     [(''connect'', EmitName ''connect''),
      (''ready'', EmitName ''ready''),
      (''error'', EmitArg ''error''),
      (''close'', EmitName ''close''),
      (''reconnecting'', EmitName ''reconnecting''),
      (''+node'', EmitArg ''node:added''),
      (''-node'', EmitArg ''node:removed''),
      (''node error'', EmitNodeError),
      (''end'', PrimaryEnd)]"

definition proxyConnectionEvents :: "client \<Rightarrow> client" where
  "proxyConnectionEvents s = s\<lparr>connection := fold on_conn primary_wiring (connection s)\<rparr>"

definition subscriber_wiring :: "(string \<times> callback) list" where
  "subscriber_wiring =
     [(''message'', Message),
      (''pmessage'', PMessage),
      (''connect'', EmitName ''subscriber:connect''),
      (''ready'', EmitName ''subscriber:ready''),
      (''error'', EmitArg ''subscriber:error''),
      (''close'', EmitName ''subscriber:close''),
      (''reconnecting'', EmitName ''subscriber:reconnecting''),
      (''end'', SubscriberEnd)]"

text \<open>
  Modelled from the spec: \<^verbatim>\<open>$makeSubscriberConnection\<close>, abstract in the class and
  implemented by subclasses that are not part of these sources: "creating the secondary
  connection via the external collaborator's factory", a new connection of the primary's
  topology with no listener.
\<close>

definition makeSubscriberConnection :: "client \<Rightarrow> client" where
  "makeSubscriberConnection s =
     log [MakeSubscriberConnection (fresh s)]
       (s\<lparr>subscriberConnection :=
            Some \<lparr>cid = fresh s, kind = kind (connection s), listeners = []\<rparr>,
          fresh := Suc (fresh s)\<rparr>)"

definition setupSubscriberConnection :: "client \<Rightarrow> error option \<times> client" where
  "setupSubscriberConnection s =
     (case subscriberConnection s of
        Some c \<Rightarrow> (None, s)
      | None \<Rightarrow>
          (let s1 = makeSubscriberConnection s
           in case subscriberConnection s1 of
                None \<Rightarrow> (Some TypeError, s1)
              | Some c \<Rightarrow>
                  (None, s1\<lparr>subscriberConnection := Some (fold on_conn subscriber_wiring c)\<rparr>)))"

subsection \<open>The callbacks\<close>

definition call_handler :: "handler \<Rightarrow> jsval list \<Rightarrow> client \<Rightarrow> error option \<times> client" where
  "call_handler h args s = (result h args, log [HandlerRan (hid h) args] s)"

text \<open>
  The body of each closure: the error it throws to its caller, if any, and the state it
  leaves. The two \<^verbatim>\<open>async\<close> closures contain their emission in \<^verbatim>\<open>try\<close>/\<^verbatim>\<open>catch\<close>.
\<close>

fun run_callback :: "callback \<Rightarrow> jsval list \<Rightarrow> client \<Rightarrow> error option \<times> client" where
  "run_callback (EmitName name) args s = (None, emit_uncaught name Undefined s)"
| "run_callback (EmitArg name) args s = (None, emit_uncaught name (arg 0 args) s)"
| "run_callback EmitNodeError args s =
     (None, emit_uncaught ''node:error'' (NodeErrorV (arg 0 args) (arg 1 args)) s)"
| "run_callback PrimaryEnd args s =
     (None, clearListeners (emit_swallowed ''end'' Undefined (removeAllListeners s)))"
| "run_callback Message args s =
     (case arg 0 args of
        StrV channel \<Rightarrow>
          (case subscriptions s channel of
             Some h \<Rightarrow> call_handler h [arg 1 args] s
           | None \<Rightarrow> (None, s))
      | _ \<Rightarrow> (None, s))"
| "run_callback PMessage args s =
     (case arg 0 args of
        StrV pattern \<Rightarrow>
          (case psubscriptions s pattern of
             Some h \<Rightarrow> call_handler h [arg 1 args, arg 2 args] s
           | None \<Rightarrow> (None, s))
      | _ \<Rightarrow> (None, s))"
| "run_callback SubscriberEnd args s =
     (let s1 = emit_swallowed ''subscriber:end'' Undefined (removeAllListeners s)
      in (None, s1\<lparr>subscriptions := Map.empty, psubscriptions := Map.empty\<rparr>))"

text \<open>
  A native event of a connection: the driver calls the listeners attached for that event,
  in order, as they were when the event started; a listener that throws ends the round.
\<close>

datatype which = Primary | Subscriber

definition conn_of :: "which \<Rightarrow> client \<Rightarrow> conn option" where
  "conn_of w s = (case w of Primary \<Rightarrow> Some (connection s) | Subscriber \<Rightarrow> subscriberConnection s)"

definition callbacks_for :: "string \<Rightarrow> conn \<Rightarrow> callback list" where
  "callbacks_for ev c = map snd (filter (\<lambda>p. fst p = ev) (listeners c))"

fun run_callbacks :: "callback list \<Rightarrow> jsval list \<Rightarrow> client \<Rightarrow> error option \<times> client" where
  "run_callbacks [] args s = (None, s)"
| "run_callbacks (cb # cbs) args s =
     (case run_callback cb args s of
        (Some e, s') \<Rightarrow> (Some e, s')
      | (None, s') \<Rightarrow> run_callbacks cbs args s')"

definition fire :: "which \<Rightarrow> string \<Rightarrow> jsval list \<Rightarrow> client \<Rightarrow> error option \<times> client" where
  "fire w ev args s =
     (case conn_of w s of
        None \<Rightarrow> (None, s)
      | Some c \<Rightarrow> run_callbacks (callbacks_for ev c) args s)"

subsection \<open>The operations\<close>

text \<open>
  The driver's answer to a call that the class awaits is a parameter \<open>drv\<close>: the error
  the awaited call rejects with, if any.
\<close>

definition quit :: "(action \<Rightarrow> error option) \<Rightarrow> client \<Rightarrow> error option \<times> client" where
  "quit drv s =
     (let a = DriverQuit (cid (connection s)); s1 = log [a] s
      in case drv a of
           Some e \<Rightarrow> (Some e, s1)
         | None \<Rightarrow>
             (case subscriberConnection s1 of
                None \<Rightarrow> (None, s1)
              | Some c \<Rightarrow> (drv (DriverQuit (cid c)), log [DriverQuit (cid c)] s1)))"

definition disconnect :: "(action \<Rightarrow> error option) \<Rightarrow> client \<Rightarrow> error option \<times> client" where
  "disconnect drv s =
     (let a = DriverDisconnect (cid (connection s)); s1 = log [a] s
      in case drv a of
           Some e \<Rightarrow> (Some e, s1)
         | None \<Rightarrow>
             (case subscriberConnection s1 of
                None \<Rightarrow> (None, s1)
              | Some c \<Rightarrow> (drv (DriverDisconnect (cid c)), log [DriverDisconnect (cid c)] s1)))"

definition subscribe :: "string \<Rightarrow> handler \<Rightarrow> client \<Rightarrow> error option \<times> client" where
  "subscribe channel h s =
     (case setupSubscriberConnection s of
        (Some e, s1) \<Rightarrow> (Some e, s1)
      | (None, s1) \<Rightarrow>
          if channel \<in> dom (subscriptions s1)
          then (Some (Exception (channel @ '' channel already has an active subscription'')
                        500 ''E_MULTIPLE_REDIS_SUBSCRIPTIONS''), s1)
          else (case subscriberConnection s1 of
                  None \<Rightarrow> (Some TypeError, s1)
                | Some c \<Rightarrow>
                    (None, log [DriverSubscribe (cid c) channel (SubscribeDone channel h)] s1)))"

definition unsubscribe :: "string \<Rightarrow> client \<Rightarrow> error option \<times> client" where
  "unsubscribe channel s =
     (let s1 = s\<lparr>subscriptions := (subscriptions s)(channel := None)\<rparr>
      in case subscriberConnection s1 of
           None \<Rightarrow> (Some TypeError, s1)
         | Some c \<Rightarrow> (None, log [DriverUnsubscribe (cid c) channel] s1))"

definition psubscribe :: "string \<Rightarrow> handler \<Rightarrow> client \<Rightarrow> error option \<times> client" where
  "psubscribe pattern h s =
     (case setupSubscriberConnection s of
        (Some e, s1) \<Rightarrow> (Some e, s1)
      | (None, s1) \<Rightarrow>
          if pattern \<in> dom (psubscriptions s1)
          then (Some (Exception (pattern @ '' pattern already has an active subscription'')
                        500 ''E_MULTIPLE_REDIS_PSUBSCRIPTIONS''), s1)
          else (case subscriberConnection s1 of
                  None \<Rightarrow> (Some TypeError, s1)
                | Some c \<Rightarrow>
                    (None, log [DriverPSubscribe (cid c) pattern (PSubscribeDone pattern h)] s1)))"

definition punsubscribe :: "string \<Rightarrow> client \<Rightarrow> error option \<times> client" where
  "punsubscribe pattern s =
     (let s1 = s\<lparr>psubscriptions := (psubscriptions s)(pattern := None)\<rparr>
      in case subscriberConnection s1 of
           None \<Rightarrow> (Some TypeError, s1)
         | Some c \<Rightarrow> (None, log [DriverPUnsubscribe (cid c) pattern] s1))"

text \<open>The closure of \<^verbatim>\<open>subscribe\<close> and \<^verbatim>\<open>psubscribe\<close>, called by the driver with \<^verbatim>\<open>(error, count)\<close>.\<close>

fun run_handshake :: "handshake \<Rightarrow> jsval \<Rightarrow> jsval \<Rightarrow> client \<Rightarrow> client" where
  "run_handshake (SubscribeDone channel h) err count s =
     (if truthy err then emit_uncaught ''subscription:error'' err s
      else (let s1 = emit_uncaught ''subscription:ready'' count s
            in s1\<lparr>subscriptions := (subscriptions s1)(channel \<mapsto> h)\<rparr>))"
| "run_handshake (PSubscribeDone pattern h) err count s =
     (if truthy err then emit_uncaught ''psubscription:error'' err s
      else (let s1 = emit_uncaught ''psubscription:ready'' count s
            in s1\<lparr>psubscriptions := (psubscriptions s1)(pattern \<mapsto> h)\<rparr>))"

subsection \<open>Every piece of code of the class\<close>

text \<open>
  The methods and the closures above are all the code of the class; \<open>enter\<close> emission one of
  them and gives the state it leaves, also when it throws.
\<close>

datatype entry =
    ProxyConnectionEvents
  | SetupSubscriberConnection
  | Quit
  | Disconnect
  | Subscribe string handler
  | Unsubscribe string
  | PSubscribe string handler
  | PUnsubscribe string
  | Callback callback "jsval list"
  | Handshake handshake jsval jsval

fun enter :: "(action \<Rightarrow> error option) \<Rightarrow> entry \<Rightarrow> client \<Rightarrow> client" where
  "enter drv ProxyConnectionEvents s = proxyConnectionEvents s"
| "enter drv SetupSubscriberConnection s = snd (setupSubscriberConnection s)"
| "enter drv Quit s = snd (quit drv s)"
| "enter drv Disconnect s = snd (disconnect drv s)"
| "enter drv (Subscribe channel h) s = snd (subscribe channel h s)"
| "enter drv (Unsubscribe channel) s = snd (unsubscribe channel s)"
| "enter drv (PSubscribe pattern h) s = snd (psubscribe pattern h s)"
| "enter drv (PUnsubscribe pattern) s = snd (punsubscribe pattern s)"
| "enter drv (Callback cb args) s = snd (run_callback cb args s)"
| "enter drv (Handshake k err count) s = run_handshake k err count s"

text \<open>The entries that put a handler under channel \<open>c\<close>: a successful handshake closure for it.\<close>

fun registers :: "string \<Rightarrow> entry \<Rightarrow> bool" where
  "registers c (Handshake (SubscribeDone c' h) err count) = (c' = c \<and> \<not> truthy err)"
| "registers c e = False"

subsection \<open>Concrete clients\<close>

definition standalone_conn :: conn where
  "standalone_conn = \<lparr>cid = 0, kind = Standalone, listeners = []\<rparr>"

definition cluster_conn :: conn where
  "cluster_conn = \<lparr>cid = 0, kind = Cluster, listeners = []\<rparr>"

definition quiet :: listener where
  "quiet = Listener 1 (\<lambda>d. None)"

definition failing :: listener where
  "failing = Listener 2 (\<lambda>d. Some (Thrown ''boom''))"

definition first_handler :: handler where
  "first_handler = Handler 1 (\<lambda>args. None)"

definition second_handler :: handler where
  "second_handler = Handler 2 (\<lambda>args. None)"

text \<open>A driver whose awaited calls all resolve.\<close>

definition resolving :: "action \<Rightarrow> error option" where
  "resolving a = None"

text \<open>A standalone client whose primary connection has been proxied.\<close>

definition started :: client where
  "started = proxyConnectionEvents (fresh_client standalone_conn)"

text \<open>The same with listeners on the bus, one of which throws.\<close>

definition listening :: client where
  "listening = started\<lparr>bus := [(''connect'', failing), (''connect'', quiet),
                               (''end'', failing), (''end'', quiet),
                               (''node:added'', quiet)]\<rparr>"

text \<open>After \<^verbatim>\<open>subscribe('news', h)\<close> and its successful handshake.\<close>

definition subscribed :: client where
  "subscribed =
     run_handshake (SubscribeDone ''news'' first_handler) Null (NumV 1)
       (snd (subscribe ''news'' first_handler listening))"

text \<open>After \<^verbatim>\<open>psubscribe('news.*', h)\<close> too.\<close>

definition psubscribed :: client where
  "psubscribed =
     run_handshake (PSubscribeDone ''news.*'' first_handler) Null (NumV 1)
       (snd (psubscribe ''news.*'' first_handler subscribed))"

text \<open>After \<^verbatim>\<open>subscribe('news', h)\<close>, its handshake still on its way.\<close>

definition pending :: client where
  "pending = snd (subscribe ''news'' first_handler started)"

text \<open>Then \<^verbatim>\<open>unsubscribe('news')\<close>, and only then the success of that handshake.\<close>

definition raced :: client where
  "raced =
     run_handshake (SubscribeDone ''news'' first_handler) Null (NumV 1)
       (snd (unsubscribe ''news'' pending))"

text \<open>After the subscriber connection's \<^verbatim>\<open>end\<close> event.\<close>

definition ended :: client where
  "ended = snd (fire Subscriber ''end'' [] subscribed)"

section \<open>Basic facts\<close>

lemma log_fields [simp]:
  "trace (log as s) = trace s @ as"
  "connection (log as s) = connection s"
  "subscriberConnection (log as s) = subscriberConnection s"
  "subscriptions (log as s) = subscriptions s"
  "psubscriptions (log as s) = psubscriptions s"
  "bus (log as s) = bus s"
  "unhandled (log as s) = unhandled s"
  "fresh (log as s) = fresh s"
  by (simp_all add: log_def)

lemma emit_fst [simp]: "fst (emit n d s) = failure d (listeners_of n s)"
  by (simp add: emit_def Let_def)

lemma emit_snd [simp]: "snd (emit n d s) = log (emission n d (listeners_of n s)) s"
  by (simp add: emit_def Let_def)

lemma emit_swallowed_eq [simp]:
  "emit_swallowed n d s = log (emission n d (listeners_of n s)) s"
  by (simp add: emit_swallowed_def)

lemma emit_uncaught_fields [simp]:
  "trace (emit_uncaught n d s) = trace s @ emission n d (listeners_of n s)"
  "connection (emit_uncaught n d s) = connection s"
  "subscriberConnection (emit_uncaught n d s) = subscriberConnection s"
  "subscriptions (emit_uncaught n d s) = subscriptions s"
  "psubscriptions (emit_uncaught n d s) = psubscriptions s"
  "bus (emit_uncaught n d s) = bus s"
  "unhandled (emit_uncaught n d s) = unhandled s @ escaped (failure d (listeners_of n s))"
  "fresh (emit_uncaught n d s) = fresh s"
  by (simp_all add: emit_uncaught_def emit_def Let_def escaped_def split: option.splits)

lemma listeners_of_log [simp]: "listeners_of n (log as s) = listeners_of n s"
  by (simp add: listeners_of_def)

lemma removeAllListeners_fields [simp]:
  "trace (removeAllListeners s) = trace s @ [RemoveAllListeners (cid (connection s))]"
  "connection (removeAllListeners s) = (connection s)\<lparr>listeners := []\<rparr>"
  "subscriberConnection (removeAllListeners s) = subscriberConnection s"
  "subscriptions (removeAllListeners s) = subscriptions s"
  "psubscriptions (removeAllListeners s) = psubscriptions s"
  "bus (removeAllListeners s) = bus s"
  "unhandled (removeAllListeners s) = unhandled s"
  "fresh (removeAllListeners s) = fresh s"
  "listeners_of n (removeAllListeners s) = listeners_of n s"
  by (simp_all add: removeAllListeners_def listeners_of_def)

lemma clearListeners_fields [simp]:
  "trace (clearListeners s) = trace s @ [ClearListeners]"
  "connection (clearListeners s) = connection s"
  "subscriberConnection (clearListeners s) = subscriberConnection s"
  "subscriptions (clearListeners s) = subscriptions s"
  "psubscriptions (clearListeners s) = psubscriptions s"
  "bus (clearListeners s) = []"
  "unhandled (clearListeners s) = unhandled s"
  "fresh (clearListeners s) = fresh s"
  by (simp_all add: clearListeners_def)

lemma setup_present:
  "subscriberConnection s = Some c \<Longrightarrow> setupSubscriberConnection s = (None, s)"
  by (simp add: setupSubscriberConnection_def)

lemma setup_absent:
  "subscriberConnection s = None \<Longrightarrow>
   setupSubscriberConnection s =
     (None, log [MakeSubscriberConnection (fresh s)]
        (s\<lparr>subscriberConnection :=
             Some \<lparr>cid = fresh s, kind = kind (connection s), listeners = subscriber_wiring\<rparr>,
           fresh := Suc (fresh s)\<rparr>))"
  by (simp add: setupSubscriberConnection_def makeSubscriberConnection_def Let_def log_def
      on_conn_def subscriber_wiring_def)

lemma setup_fst [simp]: "fst (setupSubscriberConnection s) = None"
  by (cases "subscriberConnection s") (simp_all add: setup_present setup_absent)

lemma setup_fields [simp]:
  "subscriptions (snd (setupSubscriberConnection s)) = subscriptions s"
  "psubscriptions (snd (setupSubscriberConnection s)) = psubscriptions s"
  "connection (snd (setupSubscriberConnection s)) = connection s"
  "bus (snd (setupSubscriberConnection s)) = bus s"
  "unhandled (snd (setupSubscriberConnection s)) = unhandled s"
  by (cases "subscriberConnection s"; simp add: setup_present setup_absent)+

lemma listeners_of_setup [simp]:
  "listeners_of n (snd (setupSubscriberConnection s)) = listeners_of n s"
  by (simp add: listeners_of_def)

lemma setup_some: "subscriberConnection (snd (setupSubscriberConnection s)) \<noteq> None"
  by (cases "subscriberConnection s") (simp_all add: setup_present setup_absent)

lemma fold_on_conn [simp]: "fold on_conn ws c = c\<lparr>listeners := listeners c @ ws\<rparr>"
  by (induction ws arbitrary: c) (simp_all add: on_conn_def)

lemma proxy_fields [simp]:
  "connection (proxyConnectionEvents s) =
     (connection s)\<lparr>listeners := listeners (connection s) @ primary_wiring\<rparr>"
  "subscriberConnection (proxyConnectionEvents s) = subscriberConnection s"
  "subscriptions (proxyConnectionEvents s) = subscriptions s"
  "psubscriptions (proxyConnectionEvents s) = psubscriptions s"
  "bus (proxyConnectionEvents s) = bus s"
  "trace (proxyConnectionEvents s) = trace s"
  "unhandled (proxyConnectionEvents s) = unhandled s"
  "fresh (proxyConnectionEvents s) = fresh s"
  by (simp_all add: proxyConnectionEvents_def)

lemma setup_trace:
  "trace (snd (setupSubscriberConnection s)) =
     trace s @ (if subscriberConnection s = None then [MakeSubscriberConnection (fresh s)] else [])"
  by (cases "subscriberConnection s") (simp_all add: setup_present setup_absent)

lemma subscribe_dup:
  "channel \<in> dom (subscriptions s) \<Longrightarrow>
   subscribe channel h s =
     (Some (Exception (channel @ '' channel already has an active subscription'')
              500 ''E_MULTIPLE_REDIS_SUBSCRIPTIONS''),
      snd (setupSubscriberConnection s))"
  using setup_fst [of s] setup_fields(1) [of s]
  by (cases "setupSubscriberConnection s") (simp add: subscribe_def)

lemma psubscribe_dup:
  "pattern \<in> dom (psubscriptions s) \<Longrightarrow>
   psubscribe pattern h s =
     (Some (Exception (pattern @ '' pattern already has an active subscription'')
              500 ''E_MULTIPLE_REDIS_PSUBSCRIPTIONS''),
      snd (setupSubscriberConnection s))"
  using setup_fst [of s] setup_fields(2) [of s]
  by (cases "setupSubscriberConnection s") (simp add: psubscribe_def)

lemma subscribe_new:
  "channel \<notin> dom (subscriptions s) \<Longrightarrow>
   \<exists>c. subscriberConnection (snd (setupSubscriberConnection s)) = Some c \<and>
     subscribe channel h s =
       (None, log [DriverSubscribe (cid c) channel (SubscribeDone channel h)]
                (snd (setupSubscriberConnection s)))"
  using setup_fst [of s] setup_fields(1) [of s] setup_some [of s]
  by (cases "setupSubscriberConnection s") (auto simp add: subscribe_def)

lemma psubscribe_new:
  "pattern \<notin> dom (psubscriptions s) \<Longrightarrow>
   \<exists>c. subscriberConnection (snd (setupSubscriberConnection s)) = Some c \<and>
     psubscribe pattern h s =
       (None, log [DriverPSubscribe (cid c) pattern (PSubscribeDone pattern h)]
                (snd (setupSubscriberConnection s)))"
  using setup_fst [of s] setup_fields(2) [of s] setup_some [of s]
  by (cases "setupSubscriberConnection s") (auto simp add: psubscribe_def)

lemma subscribe_fst:
  "fst (subscribe channel h s) =
     (if channel \<in> dom (subscriptions s)
      then Some (Exception (channel @ '' channel already has an active subscription'')
                   500 ''E_MULTIPLE_REDIS_SUBSCRIPTIONS'')
      else None)"
  using subscribe_new [of channel s h] subscribe_dup [of channel s h]
  by (cases "channel \<in> dom (subscriptions s)") auto

lemma subscribe_maps [simp]:
  "subscriptions (snd (subscribe channel h s)) = subscriptions s"
  "psubscriptions (snd (subscribe channel h s)) = psubscriptions s"
  "subscriptions (snd (psubscribe channel h s)) = subscriptions s"
  "psubscriptions (snd (psubscribe channel h s)) = psubscriptions s"
  using subscribe_new [of channel s h] subscribe_dup [of channel s h]
    psubscribe_new [of channel s h] psubscribe_dup [of channel s h]
  by (cases "channel \<in> dom (subscriptions s)"; cases "channel \<in> dom (psubscriptions s)"; auto)+

lemma quit_maps [simp]:
  "subscriptions (snd (quit drv s)) = subscriptions s"
  "psubscriptions (snd (quit drv s)) = psubscriptions s"
  "subscriptions (snd (disconnect drv s)) = subscriptions s"
  "psubscriptions (snd (disconnect drv s)) = psubscriptions s"
  by (simp_all add: quit_def disconnect_def Let_def split: option.splits)

lemma unsubscribe_maps [simp]:
  "subscriptions (snd (unsubscribe channel s)) = (subscriptions s)(channel := None)"
  "psubscriptions (snd (unsubscribe channel s)) = psubscriptions s"
  "subscriptions (snd (punsubscribe pattern s)) = subscriptions s"
  "psubscriptions (snd (punsubscribe pattern s)) = (psubscriptions s)(pattern := None)"
  "subscriberConnection (snd (unsubscribe channel s)) = subscriberConnection s"
  by (simp_all add: unsubscribe_def punsubscribe_def Let_def split: option.splits)

lemma unsubscribe_present:
  "subscriberConnection s = Some c \<Longrightarrow>
   unsubscribe channel s =
     (None, log [DriverUnsubscribe (cid c) channel]
        (s\<lparr>subscriptions := (subscriptions s)(channel := None)\<rparr>))"
  by (simp add: unsubscribe_def)

lemma callback_maps:
  "cb \<noteq> SubscriberEnd \<Longrightarrow> subscriptions (snd (run_callback cb args s)) = subscriptions s"
  "cb \<noteq> SubscriberEnd \<Longrightarrow> psubscriptions (snd (run_callback cb args s)) = psubscriptions s"
  "subscriptions (snd (run_callback SubscriberEnd args s)) = Map.empty"
  "psubscriptions (snd (run_callback SubscriberEnd args s)) = Map.empty"
  by (cases cb; simp add: call_handler_def Let_def split: jsval.splits option.splits)+

lemma handshake_maps:
  "subscriptions (run_handshake (SubscribeDone channel h) err count s) =
     (if truthy err then subscriptions s else (subscriptions s)(channel \<mapsto> h))"
  "psubscriptions (run_handshake (SubscribeDone channel h) err count s) = psubscriptions s"
  "subscriptions (run_handshake (PSubscribeDone pattern h) err count s) = subscriptions s"
  "psubscriptions (run_handshake (PSubscribeDone pattern h) err count s) =
     (if truthy err then psubscriptions s else (psubscriptions s)(pattern \<mapsto> h))"
  by (simp_all add: Let_def)

lemma fire_single:
  "conn_of w s = Some c \<Longrightarrow> callbacks_for ev c = [cb] \<Longrightarrow>
   fire w ev args s = run_callback cb args s"
  by (cases "run_callback cb args s"; cases "fst (run_callback cb args s)")
     (simp_all add: fire_def)

lemma message_dropped:
  "subscriptions s channel = None \<Longrightarrow> run_callback Message (StrV channel # rest) s = (None, s)"
  by (simp add: arg_def)

lemma escaped_iff:
  "escaped (failure d ls) = [] \<longleftrightarrow> (\<forall>l \<in> set ls. outcome l d = None)"
proof -
  have "first_error rs = None \<longleftrightarrow> (\<forall>r \<in> set rs. r = None)" for rs
    by (induction rs rule: first_error.induct) simp_all
  from this [of "map (\<lambda>l. outcome l d) ls"]
  have "failure d ls = None \<longleftrightarrow> (\<forall>l \<in> set ls. outcome l d = None)"
    by (simp add: failure_def)
  then show ?thesis
    by (cases "failure d ls") (simp_all add: escaped_def)
qed

lemma removed_only:
  "k \<in> dom (subscriptions s) \<Longrightarrow> k \<notin> dom (subscriptions (enter drv e s)) \<Longrightarrow>
     e = Unsubscribe k \<or> (\<exists>args. e = Callback SubscriberEnd args)"
proof (cases e)
  case (Callback cb args)
  assume "k \<in> dom (subscriptions s)" "k \<notin> dom (subscriptions (enter drv e s))"
  with Callback show ?thesis
    by (cases "cb = SubscriberEnd") (auto simp add: callback_maps)
next
  case (Handshake k' err count)
  assume "k \<in> dom (subscriptions s)" "k \<notin> dom (subscriptions (enter drv e s))"
  with Handshake show ?thesis
    by (cases k') (auto simp add: handshake_maps split: if_splits)
qed (auto split: if_splits)

lemma premoved_only:
  "k \<in> dom (psubscriptions s) \<Longrightarrow> k \<notin> dom (psubscriptions (enter drv e s)) \<Longrightarrow>
     e = PUnsubscribe k \<or> (\<exists>args. e = Callback SubscriberEnd args)"
proof (cases e)
  case (Callback cb args)
  assume "k \<in> dom (psubscriptions s)" "k \<notin> dom (psubscriptions (enter drv e s))"
  with Callback show ?thesis
    by (cases "cb = SubscriberEnd") (auto simp add: callback_maps)
next
  case (Handshake k' err count)
  assume "k \<in> dom (psubscriptions s)" "k \<notin> dom (psubscriptions (enter drv e s))"
  with Handshake show ?thesis
    by (cases k') (auto simp add: handshake_maps split: if_splits)
qed (auto split: if_splits)

lemma gained_only:
  "subscriptions (enter drv e s) k = Some h \<Longrightarrow> subscriptions s k \<noteq> Some h \<Longrightarrow>
     \<exists>err count. e = Handshake (SubscribeDone k h) err count \<and> \<not> truthy err"
proof (cases e)
  case (Callback cb args)
  assume "subscriptions (enter drv e s) k = Some h" "subscriptions s k \<noteq> Some h"
  with Callback show ?thesis
    by (cases "cb = SubscriberEnd") (auto simp add: callback_maps)
next
  case (Handshake k' err count)
  assume "subscriptions (enter drv e s) k = Some h" "subscriptions s k \<noteq> Some h"
  with Handshake show ?thesis
    by (cases k') (auto simp add: handshake_maps split: if_splits)
qed (auto split: if_splits)

lemma subscribe_twice:
  assumes "channel \<notin> dom (subscriptions s)"
  shows "\<exists>c. subscriberConnection (snd (subscribe channel h2 (snd (subscribe channel h1 s)))) = Some c \<and>
     trace (snd (subscribe channel h2 (snd (subscribe channel h1 s)))) =
       trace (snd (setupSubscriberConnection s)) @
         [DriverSubscribe (cid c) channel (SubscribeDone channel h1),
          DriverSubscribe (cid c) channel (SubscribeDone channel h2)]"
proof -
  from subscribe_new [OF assms, of h1] obtain c where
    c: "subscriberConnection (snd (setupSubscriberConnection s)) = Some c"
    and s1: "subscribe channel h1 s =
       (None, log [DriverSubscribe (cid c) channel (SubscribeDone channel h1)]
                (snd (setupSubscriberConnection s)))"
    by blast
  let ?s1 = "snd (subscribe channel h1 s)"
  have p: "subscriberConnection ?s1 = Some c" using c s1 by simp
  have n: "channel \<notin> dom (subscriptions ?s1)" using assms by simp
  from subscribe_new [OF n, of h2] p
  have "subscribe channel h2 ?s1 =
      (None, log [DriverSubscribe (cid c) channel (SubscribeDone channel h2)] ?s1)"
    by (simp add: setup_present)
  then show ?thesis using p s1 by simp
qed

subsection \<open>The concrete clients, evaluated\<close>

lemma started_eval:
  "connection started = \<lparr>cid = 0, kind = Standalone, listeners = primary_wiring\<rparr>"
  "subscriberConnection started = None"
  "subscriptions started = Map.empty"
  "psubscriptions started = Map.empty"
  "bus started = []"
  "trace started = []"
  "unhandled started = []"
  "fresh started = 1"
  by (simp_all add: started_def fresh_client_def standalone_conn_def)

lemma listening_eval:
  "connection listening = \<lparr>cid = 0, kind = Standalone, listeners = primary_wiring\<rparr>"
  "subscriberConnection listening = None"
  "subscriptions listening = Map.empty"
  "psubscriptions listening = Map.empty"
  "trace listening = []"
  "unhandled listening = []"
  "fresh listening = 1"
  "listeners_of ''connect'' listening = [failing, quiet]"
  "listeners_of ''end'' listening = [failing, quiet]"
  "listeners_of ''node:added'' listening = [quiet]"
  "listeners_of ''subscription:ready'' listening = []"
  "listeners_of ''psubscription:ready'' listening = []"
  "listeners_of ''subscriber:end'' listening = []"
  by (simp_all add: listening_def started_eval listeners_of_def)

lemma subscribed_eval:
  "connection subscribed = \<lparr>cid = 0, kind = Standalone, listeners = primary_wiring\<rparr>"
  "subscriberConnection subscribed =
     Some \<lparr>cid = 1, kind = Standalone, listeners = subscriber_wiring\<rparr>"
  "subscriptions subscribed = [''news'' \<mapsto> first_handler]"
  "psubscriptions subscribed = Map.empty"
  "trace subscribed =
     [MakeSubscriberConnection 1, DriverSubscribe 1 ''news'' (SubscribeDone ''news'' first_handler),
      Emitted ''subscription:ready'' (NumV 1)]"
  "unhandled subscribed = []"
  "listeners_of n subscribed = listeners_of n listening"
proof -
  have s: "subscribe ''news'' first_handler listening =
      (None, log [DriverSubscribe 1 ''news'' (SubscribeDone ''news'' first_handler)]
               (snd (setupSubscriberConnection listening)))"
    by (simp add: subscribe_def setup_absent listening_eval)
  have b: "bus subscribed = bus listening"
    by (simp add: subscribed_def s Let_def)
  show "connection subscribed = \<lparr>cid = 0, kind = Standalone, listeners = primary_wiring\<rparr>"
    by (simp add: subscribed_def s Let_def listening_eval)
  show "subscriberConnection subscribed =
     Some \<lparr>cid = 1, kind = Standalone, listeners = subscriber_wiring\<rparr>"
    by (simp add: subscribed_def s Let_def setup_absent listening_eval)
  show "subscriptions subscribed = [''news'' \<mapsto> first_handler]"
    by (simp add: subscribed_def s Let_def listening_eval)
  show "psubscriptions subscribed = Map.empty"
    by (simp add: subscribed_def s Let_def listening_eval)
  show "trace subscribed =
     [MakeSubscriberConnection 1, DriverSubscribe 1 ''news'' (SubscribeDone ''news'' first_handler),
      Emitted ''subscription:ready'' (NumV 1)]"
    by (simp add: subscribed_def s Let_def setup_trace listening_eval emission_def)
  show "unhandled subscribed = []"
    by (simp add: subscribed_def s Let_def listening_eval escaped_def failure_def)
  show "listeners_of n subscribed = listeners_of n listening"
    by (simp add: listeners_of_def b)
qed

lemma psubscribed_eval:
  "subscriberConnection psubscribed =
     Some \<lparr>cid = 1, kind = Standalone, listeners = subscriber_wiring\<rparr>"
  "subscriptions psubscribed = [''news'' \<mapsto> first_handler]"
  "psubscriptions psubscribed = [''news.*'' \<mapsto> first_handler]"
  "trace psubscribed =
     trace subscribed @
       [DriverPSubscribe 1 ''news.*'' (PSubscribeDone ''news.*'' first_handler),
        Emitted ''psubscription:ready'' (NumV 1)]"
proof -
  have s: "psubscribe ''news.*'' first_handler subscribed =
      (None, log [DriverPSubscribe 1 ''news.*'' (PSubscribeDone ''news.*'' first_handler)]
               subscribed)"
    by (simp add: psubscribe_def setup_present subscribed_eval)
  show "subscriberConnection psubscribed =
     Some \<lparr>cid = 1, kind = Standalone, listeners = subscriber_wiring\<rparr>"
    by (simp add: psubscribed_def s Let_def subscribed_eval)
  show "subscriptions psubscribed = [''news'' \<mapsto> first_handler]"
    by (simp add: psubscribed_def s Let_def subscribed_eval)
  show "psubscriptions psubscribed = [''news.*'' \<mapsto> first_handler]"
    by (simp add: psubscribed_def s Let_def subscribed_eval)
  show "trace psubscribed =
     trace subscribed @
       [DriverPSubscribe 1 ''news.*'' (PSubscribeDone ''news.*'' first_handler),
        Emitted ''psubscription:ready'' (NumV 1)]"
    by (simp add: psubscribed_def s Let_def subscribed_eval(7) listening_eval emission_def)
qed

lemma ended_eval: "ended = snd (run_callback SubscriberEnd [] subscribed)"
proof -
  have "conn_of Subscriber subscribed =
      Some \<lparr>cid = 1, kind = Standalone, listeners = subscriber_wiring\<rparr>"
    by (simp add: conn_of_def subscribed_eval)
  from fire_single [OF this, of "''end''" SubscriberEnd "[]"] show ?thesis
    by (simp add: ended_def callbacks_for_def subscriber_wiring_def)
qed

lemma stays_unregistered:
  "subscriptions s c = None \<Longrightarrow> \<forall>e \<in> set es. \<not> registers c e \<Longrightarrow>
   subscriptions (fold (enter drv) es s) c = None"
proof (induction es arbitrary: s)
  case Nil
  then show ?case by simp
next
  case (Cons e es)
  have "subscriptions (enter drv e s) c = None"
  proof (cases "subscriptions (enter drv e s) c")
    case None
    then show ?thesis .
  next
    case (Some h)
    with Cons.prems(1) gained_only [of drv e s c h]
    obtain err count where "e = Handshake (SubscribeDone c h) err count" "\<not> truthy err"
      by auto
    then have "registers c e" by simp
    with Cons.prems(2) show ?thesis by simp
  qed
  with Cons.IH [of "enter drv e s"] Cons.prems(2) show ?case by simp
qed

lemma message_runs:
  "subscriptions s channel = Some h \<Longrightarrow>
   run_callback Message [StrV channel, m] s = call_handler h [m] s"
  by (simp add: arg_def)



lemma pending_eval:
  "subscriberConnection pending =
     Some \<lparr>cid = 1, kind = Standalone, listeners = subscriber_wiring\<rparr>"
  "subscriptions pending = Map.empty"
  "trace pending =
     [MakeSubscriberConnection 1, DriverSubscribe 1 ''news'' (SubscribeDone ''news'' first_handler)]"
proof -
  have s: "subscribe ''news'' first_handler started =
      (None, log [DriverSubscribe 1 ''news'' (SubscribeDone ''news'' first_handler)]
               (snd (setupSubscriberConnection started)))"
    by (simp add: subscribe_def setup_absent started_eval)
  show "subscriberConnection pending =
     Some \<lparr>cid = 1, kind = Standalone, listeners = subscriber_wiring\<rparr>"
    by (simp add: pending_def s setup_absent started_eval)
  show "subscriptions pending = Map.empty"
    by (simp add: pending_def s started_eval)
  show "trace pending =
     [MakeSubscriberConnection 1, DriverSubscribe 1 ''news'' (SubscribeDone ''news'' first_handler)]"
    by (simp add: pending_def s setup_trace started_eval)
qed

lemma raced_eval:
  "subscriberConnection raced =
     Some \<lparr>cid = 1, kind = Standalone, listeners = subscriber_wiring\<rparr>"
  "subscriptions raced = [''news'' \<mapsto> first_handler]"
  by (simp_all add: raced_def Let_def pending_eval)

section \<open>The claims\<close>

text \<open>
  C9. With no subscriber connection (none is made before the first \<^verbatim>\<open>subscribe\<close> or
  \<^verbatim>\<open>psubscribe\<close>), \<^verbatim>\<open>unsubscribe(channel)\<close> and \<^verbatim>\<open>punsubscribe(pattern)\<close> do not return
  normally: the method call on the absent connection raises a \<^verbatim>\<open>TypeError\<close>, and no
  protocol-level call reaches a driver.
\<close>

theorem unsubscribe_absent:
  "subscriberConnection s = None \<Longrightarrow>
     fst (unsubscribe channel s) = Some TypeError \<and>
     trace (snd (unsubscribe channel s)) = trace s \<and>
     fst (punsubscribe pattern s) = Some TypeError \<and>
     trace (snd (punsubscribe pattern s)) = trace s"
  by (simp add: unsubscribe_def punsubscribe_def)

theorem unsubscribe_absent_witness:
  "subscriberConnection started = None \<and>
   fst (unsubscribe ''news'' started) = Some TypeError \<and>
   fst (punsubscribe ''news.*'' started) = Some TypeError \<and>
   trace (snd (unsubscribe ''news'' started)) = []"
  using unsubscribe_absent [of started "''news''" "''news.*''"]
  by (simp add: started_eval)

text \<open>
  C5. A \<^verbatim>\<open>subscribe\<close> on a channel that is in the registry throws the
  \<^verbatim>\<open>E_MULTIPLE_REDIS_SUBSCRIPTIONS\<close> exception at once: the registry is as it was, so the
  first handler stays, and the trace gains no protocol-level subscribe (only the making of
  the subscriber connection, had there been none). Likewise \<^verbatim>\<open>psubscribe\<close> on a pattern,
  with \<^verbatim>\<open>E_MULTIPLE_REDIS_PSUBSCRIPTIONS\<close>.
\<close>

theorem duplicate_rejected:
  "(channel \<in> dom (subscriptions s) \<longrightarrow>
      fst (subscribe channel h2 s) =
        Some (Exception (channel @ '' channel already has an active subscription'')
                500 ''E_MULTIPLE_REDIS_SUBSCRIPTIONS'') \<and>
      subscriptions (snd (subscribe channel h2 s)) = subscriptions s \<and>
      trace (snd (subscribe channel h2 s)) =
        trace s @ (if subscriberConnection s = None
                   then [MakeSubscriberConnection (fresh s)] else [])) \<and>
   (pattern \<in> dom (psubscriptions s) \<longrightarrow>
      fst (psubscribe pattern h2 s) =
        Some (Exception (pattern @ '' pattern already has an active subscription'')
                500 ''E_MULTIPLE_REDIS_PSUBSCRIPTIONS'') \<and>
      psubscriptions (snd (psubscribe pattern h2 s)) = psubscriptions s \<and>
      trace (snd (psubscribe pattern h2 s)) =
        trace s @ (if subscriberConnection s = None
                   then [MakeSubscriberConnection (fresh s)] else []))"
  by (simp add: subscribe_dup psubscribe_dup setup_trace)

theorem duplicate_rejected_witness:
  "''news'' \<in> dom (subscriptions psubscribed) \<and>
   fst (subscribe ''news'' second_handler psubscribed) =
     Some (Exception ''news channel already has an active subscription''
             500 ''E_MULTIPLE_REDIS_SUBSCRIPTIONS'') \<and>
   subscriptions (snd (subscribe ''news'' second_handler psubscribed)) ''news'' = Some first_handler \<and>
   trace (snd (subscribe ''news'' second_handler psubscribed)) = trace psubscribed \<and>
   ''news.*'' \<in> dom (psubscriptions psubscribed) \<and>
   fst (psubscribe ''news.*'' second_handler psubscribed) =
     Some (Exception ''news.* pattern already has an active subscription''
             500 ''E_MULTIPLE_REDIS_PSUBSCRIPTIONS'') \<and>
   psubscriptions (snd (psubscribe ''news.*'' second_handler psubscribed)) ''news.*'' =
     Some first_handler"
  using duplicate_rejected [of "''news''" psubscribed second_handler "''news.*''"]
  by (simp add: psubscribed_eval)

text \<open>
  C8. \<^verbatim>\<open>quit()\<close> asks the driver to quit the primary connection first and, once that has
  resolved, the subscriber connection if there is one; \<^verbatim>\<open>disconnect()\<close> does the same with
  the forceful call. Neither touches the two subscription maps. The closure on the
  subscriber connection's \<^verbatim>\<open>end\<close> event empties both, and of all the code of the class only
  it, and \<^verbatim>\<open>unsubscribe\<close>/\<^verbatim>\<open>punsubscribe\<close> for their own key, ever take an entry out.
\<close>

theorem quit_frame:
  "subscriptions (snd (quit drv s)) = subscriptions s \<and>
   psubscriptions (snd (quit drv s)) = psubscriptions s \<and>
   trace (snd (quit drv s)) =
     trace s @ DriverQuit (cid (connection s)) #
       (case (drv (DriverQuit (cid (connection s))), subscriberConnection s) of
          (None, Some c) \<Rightarrow> [DriverQuit (cid c)]
        | _ \<Rightarrow> []) \<and>
   subscriptions (snd (disconnect drv s)) = subscriptions s \<and>
   psubscriptions (snd (disconnect drv s)) = psubscriptions s \<and>
   trace (snd (disconnect drv s)) =
     trace s @ DriverDisconnect (cid (connection s)) #
       (case (drv (DriverDisconnect (cid (connection s))), subscriberConnection s) of
          (None, Some c) \<Rightarrow> [DriverDisconnect (cid c)]
        | _ \<Rightarrow> []) \<and>
   subscriptions (snd (run_callback SubscriberEnd args s)) = Map.empty \<and>
   psubscriptions (snd (run_callback SubscriberEnd args s)) = Map.empty \<and>
   (k \<in> dom (subscriptions s) \<and> k \<notin> dom (subscriptions (enter drv e s)) \<longrightarrow>
      e = Unsubscribe k \<or> (\<exists>args. e = Callback SubscriberEnd args)) \<and>
   (k \<in> dom (psubscriptions s) \<and> k \<notin> dom (psubscriptions (enter drv e s)) \<longrightarrow>
      e = PUnsubscribe k \<or> (\<exists>args. e = Callback SubscriberEnd args))"
proof -
  have "trace (snd (quit drv s)) =
     trace s @ DriverQuit (cid (connection s)) #
       (case (drv (DriverQuit (cid (connection s))), subscriberConnection s) of
          (None, Some c) \<Rightarrow> [DriverQuit (cid c)]
        | _ \<Rightarrow> [])"
    by (simp add: quit_def Let_def split: option.splits)
  moreover have "trace (snd (disconnect drv s)) =
     trace s @ DriverDisconnect (cid (connection s)) #
       (case (drv (DriverDisconnect (cid (connection s))), subscriberConnection s) of
          (None, Some c) \<Rightarrow> [DriverDisconnect (cid c)]
        | _ \<Rightarrow> [])"
    by (simp add: disconnect_def Let_def split: option.splits)
  ultimately show ?thesis
    using removed_only [of k s drv e] premoved_only [of k s drv e]
    by (simp add: callback_maps)
qed

theorem quit_frame_witness:
  "trace (snd (quit resolving subscribed)) = trace subscribed @ [DriverQuit 0, DriverQuit 1] \<and>
   trace (snd (disconnect resolving subscribed)) =
     trace subscribed @ [DriverDisconnect 0, DriverDisconnect 1] \<and>
   subscriptions (snd (quit resolving subscribed)) ''news'' = Some first_handler \<and>
   ''news'' \<in> dom (subscriptions subscribed) \<and>
   ''news'' \<notin> dom (subscriptions (enter resolving (Callback SubscriberEnd []) subscribed)) \<and>
   ''news.*'' \<in> dom (psubscriptions psubscribed) \<and>
   ''news.*'' \<notin> dom (psubscriptions (enter resolving (PUnsubscribe ''news.*'') psubscribed)) \<and>
   psubscriptions (snd (quit resolving psubscribed)) ''news.*'' = Some first_handler"
  using quit_frame [of resolving subscribed "[]" "''news''" "Callback SubscriberEnd []"]
    quit_frame [of resolving psubscribed "[]" "''news.*''" "PUnsubscribe ''news.*''"]
  by (simp add: subscribed_eval psubscribed_eval resolving_def callback_maps)

text \<open>
  C7, as the code has it. \<^verbatim>\<open>unsubscribe(channel)\<close> takes the channel out of the registry
  first, in every state; with a subscriber connection it then issues the protocol-level
  unsubscribe and returns. A \<^verbatim>\<open>message\<close> event for that channel finds no handler, calls
  none and throws nothing, for as long as no handshake closure of a \<^verbatim>\<open>subscribe\<close> on that
  channel has succeeded since, whatever other code of the class has run. Nothing cancels
  such a closure: when it succeeds after the \<^verbatim>\<open>unsubscribe\<close>, the handler is back in the
  registry and the next message runs it.
\<close>

theorem unsubscribe_until_reregistered:
  "subscriptions (snd (unsubscribe channel s)) = (subscriptions s)(channel := None) \<and>
   (\<forall>c. subscriberConnection s = Some c \<longrightarrow>
      unsubscribe channel s =
        (None, log [DriverUnsubscribe (cid c) channel]
           (s\<lparr>subscriptions := (subscriptions s)(channel := None)\<rparr>))) \<and>
   ((\<forall>e \<in> set es. \<not> registers channel e) \<longrightarrow>
      run_callback Message [StrV channel, m] (fold (enter drv) es (snd (unsubscribe channel s))) =
        (None, fold (enter drv) es (snd (unsubscribe channel s))) \<and>
      (\<forall>c. subscriberConnection (fold (enter drv) es (snd (unsubscribe channel s))) = Some c \<and>
           callbacks_for ''message'' c = [Message] \<longrightarrow>
         fire Subscriber ''message'' [StrV channel, m]
             (fold (enter drv) es (snd (unsubscribe channel s))) =
           (None, fold (enter drv) es (snd (unsubscribe channel s))))) \<and>
   (\<not> truthy err \<longrightarrow>
      run_callback Message [StrV channel, m]
          (run_handshake (SubscribeDone channel h) err count (snd (unsubscribe channel s))) =
        call_handler h [m]
          (run_handshake (SubscribeDone channel h) err count (snd (unsubscribe channel s))))"
proof -
  let ?u = "snd (unsubscribe channel s)"
  let ?t = "fold (enter drv) es ?u"
  let ?r = "run_handshake (SubscribeDone channel h) err count ?u"
  have gone: "subscriptions ?u channel = None" by simp
  have dropped: "run_callback Message [StrV channel, m] ?t = (None, ?t) \<and>
      (\<forall>c. subscriberConnection ?t = Some c \<and> callbacks_for ''message'' c = [Message] \<longrightarrow>
         fire Subscriber ''message'' [StrV channel, m] ?t = (None, ?t))"
    if none: "\<forall>e \<in> set es. \<not> registers channel e"
  proof -
    have "subscriptions ?t channel = None"
      using gone none by (rule stays_unregistered)
    then have drop: "run_callback Message [StrV channel, m] ?t = (None, ?t)"
      by (rule message_dropped)
    have "fire Subscriber ''message'' [StrV channel, m] ?t = (None, ?t)"
      if "subscriberConnection ?t = Some c" "callbacks_for ''message'' c = [Message]" for c
    proof -
      have "conn_of Subscriber ?t = Some c" using that(1) by (simp add: conn_of_def)
      from fire_single [OF this that(2)] drop show ?thesis by simp
    qed
    with drop show ?thesis by blast
  qed
  have again: "run_callback Message [StrV channel, m] ?r = call_handler h [m] ?r"
    if "\<not> truthy err"
  proof -
    have "subscriptions ?r channel = Some h" using that by (simp add: handshake_maps)
    then show ?thesis by (rule message_runs)
  qed
  have issue: "unsubscribe channel s =
        (None, log [DriverUnsubscribe (cid c) channel]
           (s\<lparr>subscriptions := (subscriptions s)(channel := None)\<rparr>))"
    if "subscriberConnection s = Some c" for c
    using that by (rule unsubscribe_present)
  have del: "subscriptions ?u = (subscriptions s)(channel := None)" by simp
  from del issue dropped again show ?thesis by blast
qed

theorem unsubscribe_until_reregistered_witness:
  "subscriptions subscribed ''news'' = Some first_handler \<and>
   subscriptions (snd (unsubscribe ''news'' subscribed)) ''news'' = None \<and>
   trace (snd (unsubscribe ''news'' subscribed)) =
     trace subscribed @ [DriverUnsubscribe 1 ''news''] \<and>
   \<not> registers ''news'' (Handshake (SubscribeDone ''sport'' second_handler) Null (NumV 2)) \<and>
   fire Subscriber ''message'' [StrV ''news'', StrV ''hello'']
       (fold (enter resolving) [Handshake (SubscribeDone ''sport'' second_handler) Null (NumV 2)]
          (snd (unsubscribe ''news'' subscribed))) =
     (None, fold (enter resolving) [Handshake (SubscribeDone ''sport'' second_handler) Null (NumV 2)]
              (snd (unsubscribe ''news'' subscribed))) \<and>
   \<not> truthy Null \<and>
   run_callback Message [StrV ''news'', StrV ''hello'']
       (run_handshake (SubscribeDone ''news'' second_handler) Null (NumV 1)
          (snd (unsubscribe ''news'' subscribed))) =
     call_handler second_handler [StrV ''hello'']
       (run_handshake (SubscribeDone ''news'' second_handler) Null (NumV 1)
          (snd (unsubscribe ''news'' subscribed)))"
proof -
  let ?c = "\<lparr>cid = 1, kind = Standalone, listeners = subscriber_wiring\<rparr>"
  let ?es = "[Handshake (SubscribeDone ''sport'' second_handler) Null (NumV 2)]"
  let ?t = "fold (enter resolving) ?es (snd (unsubscribe ''news'' subscribed))"
  have c: "subscriberConnection subscribed = Some ?c" by (simp add: subscribed_eval)
  have n: "\<forall>e \<in> set ?es. \<not> registers ''news'' e" by simp
  have t: "subscriberConnection ?t = Some ?c" by (simp add: Let_def subscribed_eval)
  have m: "callbacks_for ''message'' ?c = [Message]"
    by (simp add: callbacks_for_def subscriber_wiring_def)
  have z: "\<not> truthy Null" by simp
  note inst = unsubscribe_until_reregistered [of "''news''" subscribed ?es "StrV ''hello''"
      resolving Null second_handler "NumV 1"]
  from inst n t m
  have f: "fire Subscriber ''message'' [StrV ''news'', StrV ''hello''] ?t = (None, ?t)"
    by blast
  from inst z
  have b: "run_callback Message [StrV ''news'', StrV ''hello'']
       (run_handshake (SubscribeDone ''news'' second_handler) Null (NumV 1)
          (snd (unsubscribe ''news'' subscribed))) =
     call_handler second_handler [StrV ''hello'']
       (run_handshake (SubscribeDone ''news'' second_handler) Null (NumV 1)
          (snd (unsubscribe ''news'' subscribed)))"
    by blast
  have u: "trace (snd (unsubscribe ''news'' subscribed)) =
      trace subscribed @ [DriverUnsubscribe 1 ''news'']"
    by (simp add: unsubscribe_present [OF c])
  have s: "subscriptions subscribed ''news'' = Some first_handler"
    "subscriptions (snd (unsubscribe ''news'' subscribed)) ''news'' = None"
    by (simp_all add: subscribed_eval)
  from s u f z b show ?thesis by simp
qed

text \<open>
  C7 as stated fails twice. \<^verbatim>\<open>subscribe('news', h)\<close>, then \<^verbatim>\<open>unsubscribe('news')\<close> before
  the handshake is back: the call returns and the protocol-level unsubscribe is issued,
  then the handshake succeeds, and the next \<^verbatim>\<open>message\<close> for \<^verbatim>\<open>news\<close> runs handler 1. And
  on a client that has no subscriber connection, \<^verbatim>\<open>unsubscribe('news')\<close> throws and issues
  no protocol-level unsubscribe.
\<close>

theorem late_handshake_counterexample:
  "fst (unsubscribe ''news'' pending) = None \<and>
   last (trace (snd (unsubscribe ''news'' pending))) = DriverUnsubscribe 1 ''news'' \<and>
   raced = run_handshake (SubscribeDone ''news'' first_handler) Null (NumV 1)
             (snd (unsubscribe ''news'' pending)) \<and>
   trace (snd (fire Subscriber ''message'' [StrV ''news'', StrV ''hello''] raced)) =
     trace raced @ [HandlerRan 1 [StrV ''hello'']] \<and>
   fst (unsubscribe ''news'' started) = Some TypeError \<and>
   trace (snd (unsubscribe ''news'' started)) = []"
proof -
  let ?c = "\<lparr>cid = 1, kind = Standalone, listeners = subscriber_wiring\<rparr>"
  have u: "unsubscribe ''news'' pending =
      (None, log [DriverUnsubscribe 1 ''news'']
         (pending\<lparr>subscriptions := (subscriptions pending)(''news'' := None)\<rparr>))"
    using unsubscribe_present [of pending ?c "''news''"] by (simp add: pending_eval)
  have c: "conn_of Subscriber raced = Some ?c" by (simp add: conn_of_def raced_eval)
  have f: "fire Subscriber ''message'' [StrV ''news'', StrV ''hello''] raced =
      run_callback Message [StrV ''news'', StrV ''hello''] raced"
    by (rule fire_single [OF c]) (simp add: callbacks_for_def subscriber_wiring_def)
  have m: "trace (snd (fire Subscriber ''message'' [StrV ''news'', StrV ''hello''] raced)) =
      trace raced @ [HandlerRan 1 [StrV ''hello'']]"
  proof -
    have "run_callback Message [StrV ''news'', StrV ''hello''] raced =
        call_handler first_handler [StrV ''hello''] raced"
      by (rule message_runs) (simp add: raced_eval)
    then show ?thesis
      unfolding f by (simp add: call_handler_def first_handler_def)
  qed
  have a: "fst (unsubscribe ''news'' started) = Some TypeError"
    "trace (snd (unsubscribe ''news'' started)) = []"
    by (simp_all add: unsubscribe_def started_eval)
  show ?thesis using m a by (simp add: u raced_def)
qed

text \<open>
  C4. The closure that \<^verbatim>\<open>subscribe(channel, handler)\<close> hands to the driver, called with an
  error, emits \<^verbatim>\<open>subscription:error\<close> with that error and leaves the channel map as it is;
  called without one, it emits \<^verbatim>\<open>subscription:ready\<close> with the driver's count and records
  the handler under the channel. The closure of \<^verbatim>\<open>psubscribe\<close> does the same with
  \<^verbatim>\<open>psubscription:error\<close> and \<^verbatim>\<open>psubscription:ready\<close> over the pattern map. A call on a
  key not yet registered ends by handing exactly that closure to the driver.
\<close>

theorem handshake_outcome:
  "(truthy err \<longrightarrow>
      trace (run_handshake (SubscribeDone channel h) err count s) =
        trace s @ emission ''subscription:error'' err (listeners_of ''subscription:error'' s) \<and>
      subscriptions (run_handshake (SubscribeDone channel h) err count s) = subscriptions s \<and>
      trace (run_handshake (PSubscribeDone pattern h) err count s) =
        trace s @ emission ''psubscription:error'' err (listeners_of ''psubscription:error'' s) \<and>
      psubscriptions (run_handshake (PSubscribeDone pattern h) err count s) = psubscriptions s) \<and>
   (\<not> truthy err \<longrightarrow>
      trace (run_handshake (SubscribeDone channel h) err count s) =
        trace s @ emission ''subscription:ready'' count (listeners_of ''subscription:ready'' s) \<and>
      subscriptions (run_handshake (SubscribeDone channel h) err count s) =
        (subscriptions s)(channel \<mapsto> h) \<and>
      trace (run_handshake (PSubscribeDone pattern h) err count s) =
        trace s @ emission ''psubscription:ready'' count (listeners_of ''psubscription:ready'' s) \<and>
      psubscriptions (run_handshake (PSubscribeDone pattern h) err count s) =
        (psubscriptions s)(pattern \<mapsto> h)) \<and>
   (channel \<notin> dom (subscriptions s) \<longrightarrow>
      (\<exists>c. subscriberConnection (snd (subscribe channel h s)) = Some c \<and>
           last (trace (snd (subscribe channel h s))) =
             DriverSubscribe (cid c) channel (SubscribeDone channel h))) \<and>
   (pattern \<notin> dom (psubscriptions s) \<longrightarrow>
      (\<exists>c. subscriberConnection (snd (psubscribe pattern h s)) = Some c \<and>
           last (trace (snd (psubscribe pattern h s))) =
             DriverPSubscribe (cid c) pattern (PSubscribeDone pattern h)))"
proof -
  have a: "channel \<notin> dom (subscriptions s) \<Longrightarrow>
      \<exists>c. subscriberConnection (snd (subscribe channel h s)) = Some c \<and>
           last (trace (snd (subscribe channel h s))) =
             DriverSubscribe (cid c) channel (SubscribeDone channel h)"
    using subscribe_new [of channel s h] by auto
  have b: "pattern \<notin> dom (psubscriptions s) \<Longrightarrow>
      \<exists>c. subscriberConnection (snd (psubscribe pattern h s)) = Some c \<and>
           last (trace (snd (psubscribe pattern h s))) =
             DriverPSubscribe (cid c) pattern (PSubscribeDone pattern h)"
    using psubscribe_new [of pattern s h] by auto
  show ?thesis using a b by (simp add: Let_def)
qed

theorem handshake_outcome_witness:
  "truthy (ErrV (Thrown ''refused'')) \<and>
   subscriptions (run_handshake (SubscribeDone ''news'' first_handler)
                    (ErrV (Thrown ''refused'')) Undefined started) = subscriptions started \<and>
   trace (run_handshake (SubscribeDone ''sport'' second_handler)
            (ErrV (Thrown ''refused'')) Undefined
            (subscribed\<lparr>bus := [(''subscription:error'', quiet)]\<rparr>)) =
     trace subscribed @ [Emitted ''subscription:error'' (ErrV (Thrown ''refused'')),
                         ListenerRan ''subscription:error'' 1 (ErrV (Thrown ''refused''))] \<and>
   \<not> truthy Null \<and>
   subscriptions (run_handshake (SubscribeDone ''news'' first_handler) Null (NumV 1) started) =
     (subscriptions started)(''news'' \<mapsto> first_handler) \<and>
   trace (run_handshake (SubscribeDone ''sport'' second_handler) Null (NumV 2)
            (subscribed\<lparr>bus := [(''subscription:ready'', quiet)]\<rparr>)) =
     trace subscribed @ [Emitted ''subscription:ready'' (NumV 2),
                         ListenerRan ''subscription:ready'' 1 (NumV 2)] \<and>
   ''news'' \<notin> dom (subscriptions started) \<and>
   last (trace (snd (subscribe ''news'' first_handler started))) =
     DriverSubscribe 1 ''news'' (SubscribeDone ''news'' first_handler) \<and>
   ''news.*'' \<notin> dom (psubscriptions started) \<and>
   last (trace (snd (psubscribe ''news.*'' first_handler started))) =
     DriverPSubscribe 1 ''news.*'' (PSubscribeDone ''news.*'' first_handler)"
  using handshake_outcome [of "ErrV (Thrown ''refused'')" "''news''" first_handler Undefined
      started "''news.*''"]
    handshake_outcome [of "ErrV (Thrown ''refused'')" "''sport''" second_handler Undefined
      "subscribed\<lparr>bus := [(''subscription:error'', quiet)]\<rparr>" "''news.*''"]
    handshake_outcome [of Null "''news''" first_handler "NumV 1" started "''news.*''"]
    handshake_outcome [of Null "''sport''" second_handler "NumV 2"
      "subscribed\<lparr>bus := [(''subscription:ready'', quiet)]\<rparr>" "''news.*''"]
  by (simp add: started_eval listeners_of_def emission_def quiet_def subscribe_def
      psubscribe_def setup_absent)


text \<open>
  C2, as the code has it. The closure on the subscriber connection's \<^verbatim>\<open>end\<close> event empties
  the channel map and the pattern map and leaves \<^verbatim>\<open>subscriberConnection\<close> set; a later
  \<^verbatim>\<open>subscribe\<close> or \<^verbatim>\<open>psubscribe\<close> therefore makes no connection and issues its
  protocol-level call on the connection that has ended.
\<close>

theorem subscriber_end_keeps_connection:
  "subscriptions (snd (run_callback SubscriberEnd args s)) = Map.empty \<and>
   psubscriptions (snd (run_callback SubscriberEnd args s)) = Map.empty \<and>
   subscriberConnection (snd (run_callback SubscriberEnd args s)) = subscriberConnection s \<and>
   (\<forall>c. subscriberConnection s = Some c \<longrightarrow>
      subscribe channel h (snd (run_callback SubscriberEnd args s)) =
        (None, log [DriverSubscribe (cid c) channel (SubscribeDone channel h)]
                 (snd (run_callback SubscriberEnd args s))) \<and>
      psubscribe pattern h (snd (run_callback SubscriberEnd args s)) =
        (None, log [DriverPSubscribe (cid c) pattern (PSubscribeDone pattern h)]
                 (snd (run_callback SubscriberEnd args s))))"
proof -
  let ?s' = "snd (run_callback SubscriberEnd args s)"
  have maps: "subscriptions ?s' = Map.empty" "psubscriptions ?s' = Map.empty"
    by (simp_all add: callback_maps)
  have same: "subscriberConnection ?s' = subscriberConnection s"
    by (simp add: Let_def)
  have "subscribe channel h ?s' =
          (None, log [DriverSubscribe (cid c) channel (SubscribeDone channel h)] ?s') \<and>
        psubscribe pattern h ?s' =
          (None, log [DriverPSubscribe (cid c) pattern (PSubscribeDone pattern h)] ?s')"
    if "subscriberConnection s = Some c" for c
  proof -
    have "subscriberConnection ?s' = Some c" using same that by simp
    then show ?thesis using maps
      by (simp add: subscribe_def psubscribe_def setup_present)
  qed
  with maps same show ?thesis by blast
qed

theorem subscriber_end_keeps_connection_witness:
  "subscriberConnection subscribed =
     Some \<lparr>cid = 1, kind = Standalone, listeners = subscriber_wiring\<rparr> \<and>
   subscriptions ended = Map.empty \<and> psubscriptions ended = Map.empty \<and>
   subscriberConnection ended = subscriberConnection subscribed \<and>
   subscribe ''news'' second_handler ended =
     (None, log [DriverSubscribe 1 ''news'' (SubscribeDone ''news'' second_handler)] ended)"
  using subscriber_end_keeps_connection [of "[]" subscribed "''news''" second_handler "''news.*''"]
  by (simp add: ended_eval subscribed_eval)

text \<open>
  C2 as stated fails: after a subscription and the subscriber connection's \<^verbatim>\<open>end\<close> event,
  the registry is empty, yet the next \<^verbatim>\<open>subscribe\<close> makes no connection; its protocol-level
  subscribe goes to connection 1, the one that ended, which is still the subscriber
  connection afterwards.
\<close>

theorem no_new_subscriber_counterexample:
  "map_option cid (subscriberConnection subscribed) = Some 1 \<and>
   subscriptions ended = Map.empty \<and>
   map_option cid (subscriberConnection (snd (subscribe ''news'' second_handler ended))) = Some 1 \<and>
   trace (snd (subscribe ''news'' second_handler ended)) =
     trace ended @ [DriverSubscribe 1 ''news'' (SubscribeDone ''news'' second_handler)]"
proof -
  have c: "subscriberConnection (snd (run_callback SubscriberEnd [] subscribed)) =
      Some \<lparr>cid = 1, kind = Standalone, listeners = subscriber_wiring\<rparr>"
    by (simp add: Let_def subscribed_eval)
  have m: "subscriptions (snd (run_callback SubscriberEnd [] subscribed)) = Map.empty"
    by (simp add: callback_maps)
  show ?thesis
    using c m by (simp add: ended_eval subscribed_eval subscribe_def setup_present)
qed

text \<open>
  C3, as the code has it. \<^verbatim>\<open>$proxyConnectionEvents\<close> never looks at the topology: on a
  connection of either kind it attaches the closures that map \<^verbatim>\<open>+node\<close>, \<^verbatim>\<open>-node\<close> and
  \<^verbatim>\<open>node error\<close> to \<^verbatim>\<open>node:added(node)\<close>, \<^verbatim>\<open>node:removed(node)\<close> and
  \<^verbatim>\<open>node:error({error, address})\<close>, so that each of these native events, whenever the
  connection raises it, is emitted on the bus.
\<close>

theorem node_wiring_any_topology:
  "(listeners (connection s) = [] \<longrightarrow>
      fire Primary ''+node'' [node] (proxyConnectionEvents s) =
        (None, emit_uncaught ''node:added'' node (proxyConnectionEvents s)) \<and>
      fire Primary ''-node'' [node] (proxyConnectionEvents s) =
        (None, emit_uncaught ''node:removed'' node (proxyConnectionEvents s)) \<and>
      fire Primary ''node error'' [err, address] (proxyConnectionEvents s) =
        (None, emit_uncaught ''node:error'' (NodeErrorV err address) (proxyConnectionEvents s))) \<and>
   kind (connection (proxyConnectionEvents s)) = kind (connection s)"
proof -
  let ?s' = "proxyConnectionEvents s"
  have c: "conn_of Primary ?s' = Some (connection ?s')" by (simp add: conn_of_def)
  have "fire Primary ''+node'' [node] ?s' = (None, emit_uncaught ''node:added'' node ?s') \<and>
      fire Primary ''-node'' [node] ?s' = (None, emit_uncaught ''node:removed'' node ?s') \<and>
      fire Primary ''node error'' [err, address] ?s' =
        (None, emit_uncaught ''node:error'' (NodeErrorV err address) ?s')"
    if "listeners (connection s) = []"
  proof -
    have e: "callbacks_for ''+node'' (connection ?s') = [EmitArg ''node:added'']"
      "callbacks_for ''-node'' (connection ?s') = [EmitArg ''node:removed'']"
      "callbacks_for ''node error'' (connection ?s') = [EmitNodeError]"
      using that by (simp_all add: callbacks_for_def primary_wiring_def)
    show ?thesis
      using fire_single [OF c e(1), of "[node]"] fire_single [OF c e(2), of "[node]"]
        fire_single [OF c e(3), of "[err, address]"]
      by (simp add: arg_def)
  qed
  then show ?thesis by simp
qed

theorem node_wiring_any_topology_witness:
  "listeners (connection (fresh_client standalone_conn)) = [] \<and>
   kind (connection started) = Standalone \<and>
   fire Primary ''+node'' [NodeV 7] started = (None, emit_uncaught ''node:added'' (NodeV 7) started) \<and>
   listeners (connection (fresh_client cluster_conn)) = [] \<and>
   kind (connection (proxyConnectionEvents (fresh_client cluster_conn))) = Cluster \<and>
   fire Primary ''+node'' [NodeV 7] (proxyConnectionEvents (fresh_client cluster_conn)) =
     (None, emit_uncaught ''node:added'' (NodeV 7) (proxyConnectionEvents (fresh_client cluster_conn)))"
proof -
  have a: "listeners (connection (fresh_client standalone_conn)) = []"
    "listeners (connection (fresh_client cluster_conn)) = []"
    by (simp_all add: fresh_client_def standalone_conn_def cluster_conn_def)
  have k: "kind (connection (fresh_client standalone_conn)) = Standalone"
    "kind (connection (fresh_client cluster_conn)) = Cluster"
    by (simp_all add: fresh_client_def standalone_conn_def cluster_conn_def)
  from node_wiring_any_topology [of "fresh_client standalone_conn" "NodeV 7"]
    node_wiring_any_topology [of "fresh_client cluster_conn" "NodeV 7"] a k
  show ?thesis unfolding started_def by metis
qed

text \<open>
  C3 as stated fails: on a standalone connection the three node closures are attached, and
  a \<^verbatim>\<open>+node\<close> event of that connection emission the bus's \<^verbatim>\<open>node:added\<close> listener.
\<close>

theorem standalone_node_wiring_counterexample:
  "kind (connection listening) = Standalone \<and>
   (''+node'', EmitArg ''node:added'') \<in> set (listeners (connection listening)) \<and>
   (''-node'', EmitArg ''node:removed'') \<in> set (listeners (connection listening)) \<and>
   (''node error'', EmitNodeError) \<in> set (listeners (connection listening)) \<and>
   trace (snd (fire Primary ''+node'' [NodeV 7] listening)) =
     [Emitted ''node:added'' (NodeV 7), ListenerRan ''node:added'' 1 (NodeV 7)]"
proof -
  have c: "conn_of Primary listening = Some (connection listening)" by (simp add: conn_of_def)
  have f: "fire Primary ''+node'' [NodeV 7] listening =
      run_callback (EmitArg ''node:added'') [NodeV 7] listening"
    by (rule fire_single [OF c])
      (simp add: listening_eval callbacks_for_def primary_wiring_def)
  have t: "trace (snd (fire Primary ''+node'' [NodeV 7] listening)) =
      [Emitted ''node:added'' (NodeV 7), ListenerRan ''node:added'' 1 (NodeV 7)]"
    by (simp add: f listening_eval arg_def emission_def quiet_def)
  show ?thesis
    using t by (simp add: listening_eval primary_wiring_def)
qed

text \<open>
  C1, as the code has it. Every emission of the class emission all the listeners registered
  for its event, whether or not one of them throws. Only the two \<^verbatim>\<open>end\<close> closures catch
  what the emission rejects with (\<^verbatim>\<open>end\<close> and \<^verbatim>\<open>subscriber:end\<close>): there nothing escapes.
  At every other emission (\<^verbatim>\<open>connect\<close>, \<^verbatim>\<open>ready\<close>, \<^verbatim>\<open>error\<close>, \<^verbatim>\<open>close\<close>,
  \<^verbatim>\<open>reconnecting\<close>, their \<^verbatim>\<open>subscriber:\<close> variants, the node events and the
  (p)subscription events) the first listener error is left uncaught; nothing escapes
  exactly when no listener throws.
\<close>

theorem emission_sites:
  "trace (snd (run_callback (EmitName n) args s)) =
     trace s @ emission n Undefined (listeners_of n s) \<and>
   unhandled (snd (run_callback (EmitName n) args s)) =
     unhandled s @ escaped (failure Undefined (listeners_of n s)) \<and>
   trace (snd (run_callback (EmitArg n) args s)) =
     trace s @ emission n (arg 0 args) (listeners_of n s) \<and>
   unhandled (snd (run_callback (EmitArg n) args s)) =
     unhandled s @ escaped (failure (arg 0 args) (listeners_of n s)) \<and>
   trace (snd (run_callback EmitNodeError args s)) =
     trace s @ emission ''node:error'' (NodeErrorV (arg 0 args) (arg 1 args))
                 (listeners_of ''node:error'' s) \<and>
   unhandled (snd (run_callback EmitNodeError args s)) =
     unhandled s @ escaped (failure (NodeErrorV (arg 0 args) (arg 1 args))
                              (listeners_of ''node:error'' s)) \<and>
   trace (run_handshake (SubscribeDone channel h) err count s) =
     trace s @ (if truthy err
                then emission ''subscription:error'' err (listeners_of ''subscription:error'' s)
                else emission ''subscription:ready'' count (listeners_of ''subscription:ready'' s)) \<and>
   unhandled (run_handshake (SubscribeDone channel h) err count s) =
     unhandled s @ (if truthy err
                    then escaped (failure err (listeners_of ''subscription:error'' s))
                    else escaped (failure count (listeners_of ''subscription:ready'' s))) \<and>
   trace (run_handshake (PSubscribeDone pattern h) err count s) =
     trace s @ (if truthy err
                then emission ''psubscription:error'' err (listeners_of ''psubscription:error'' s)
                else emission ''psubscription:ready'' count (listeners_of ''psubscription:ready'' s)) \<and>
   unhandled (run_handshake (PSubscribeDone pattern h) err count s) =
     unhandled s @ (if truthy err
                    then escaped (failure err (listeners_of ''psubscription:error'' s))
                    else escaped (failure count (listeners_of ''psubscription:ready'' s))) \<and>
   trace (snd (run_callback PrimaryEnd args s)) =
     trace s @ RemoveAllListeners (cid (connection s)) #
       emission ''end'' Undefined (listeners_of ''end'' s) @ [ClearListeners] \<and>
   unhandled (snd (run_callback PrimaryEnd args s)) = unhandled s \<and>
   trace (snd (run_callback SubscriberEnd args s)) =
     trace s @ RemoveAllListeners (cid (connection s)) #
       emission ''subscriber:end'' Undefined (listeners_of ''subscriber:end'' s) \<and>
   unhandled (snd (run_callback SubscriberEnd args s)) = unhandled s \<and>
   (escaped (failure d ls) = [] \<longleftrightarrow> (\<forall>l \<in> set ls. outcome l d = None))"
  by (simp add: Let_def escaped_iff)

theorem emission_sites_witness:
  "trace (snd (run_callback PrimaryEnd [] listening)) =
     [RemoveAllListeners 0, Emitted ''end'' Undefined, ListenerRan ''end'' 2 Undefined,
      ListenerRan ''end'' 1 Undefined, ClearListeners] \<and>
   unhandled (snd (run_callback PrimaryEnd [] listening)) = [] \<and>
   trace (snd (run_callback (EmitName ''connect'') [] listening)) =
     [Emitted ''connect'' Undefined, ListenerRan ''connect'' 2 Undefined,
      ListenerRan ''connect'' 1 Undefined] \<and>
   unhandled (snd (run_callback (EmitName ''connect'') [] listening)) = [Thrown ''boom''] \<and>
   (escaped (failure Undefined [quiet]) = [] \<longleftrightarrow> (\<forall>l \<in> set [quiet]. outcome l Undefined = None))"
  using emission_sites [of "''connect''" "[]" listening "''news''" first_handler Null Null
      "''news.*''" Undefined "[quiet]"]
  by (simp add: listening_eval emission_def failure_def escaped_def failing_def quiet_def)

text \<open>
  C1 as stated fails: with a throwing and a quiet listener on \<^verbatim>\<open>connect\<close>, the primary
  connection's \<^verbatim>\<open>connect\<close> event emission both, and the error of the first is not swallowed:
  it is left as an unhandled rejection.
\<close>

theorem connect_error_escapes_counterexample:
  "unhandled listening = [] \<and>
   trace (snd (fire Primary ''connect'' [] listening)) =
     [Emitted ''connect'' Undefined, ListenerRan ''connect'' 2 Undefined,
      ListenerRan ''connect'' 1 Undefined] \<and>
   unhandled (snd (fire Primary ''connect'' [] listening)) = [Thrown ''boom'']"
proof -
  have c: "conn_of Primary listening = Some (connection listening)" by (simp add: conn_of_def)
  have f: "fire Primary ''connect'' [] listening =
      run_callback (EmitName ''connect'') [] listening"
    by (rule fire_single [OF c])
      (simp add: listening_eval callbacks_for_def primary_wiring_def)
  show ?thesis
    by (simp add: f listening_eval emission_def failure_def escaped_def failing_def quiet_def)
qed

text \<open>
  C10. \<^verbatim>\<open>subscribe(channel, handler)\<close> throws the duplicate-subscription exception exactly
  when the channel is in the channel map at the call. Of all the code of the class, only
  the closure of \<^verbatim>\<open>subscribe\<close> for that channel and handler, called without an error, puts
  a handler under a channel. So a second \<^verbatim>\<open>subscribe\<close> on a channel whose first handshake
  has not come back is accepted, two protocol-level subscribes reach the driver, and after
  both successes the map holds the handler whose closure ran last, in either order.
\<close>

theorem concurrent_subscribe:
  "(fst (subscribe channel h s) =
      Some (Exception (channel @ '' channel already has an active subscription'')
              500 ''E_MULTIPLE_REDIS_SUBSCRIPTIONS'')
    \<longleftrightarrow> channel \<in> dom (subscriptions s)) \<and>
   (subscriptions (enter drv e s) k = Some g \<and> subscriptions s k \<noteq> Some g \<longrightarrow>
      (\<exists>err count. e = Handshake (SubscribeDone k g) err count \<and> \<not> truthy err)) \<and>
   (channel \<notin> dom (subscriptions s) \<and> \<not> truthy e1 \<and> \<not> truthy e2 \<longrightarrow>
      fst (subscribe channel h1 s) = None \<and>
      fst (subscribe channel h2 (snd (subscribe channel h1 s))) = None \<and>
      (\<exists>c. subscriberConnection (snd (subscribe channel h2 (snd (subscribe channel h1 s)))) = Some c \<and>
         trace (snd (subscribe channel h2 (snd (subscribe channel h1 s)))) =
           trace (snd (setupSubscriberConnection s)) @
             [DriverSubscribe (cid c) channel (SubscribeDone channel h1),
              DriverSubscribe (cid c) channel (SubscribeDone channel h2)]) \<and>
      subscriptions
        (run_handshake (SubscribeDone channel h2) e2 n2
          (run_handshake (SubscribeDone channel h1) e1 n1
            (snd (subscribe channel h2 (snd (subscribe channel h1 s)))))) channel = Some h2 \<and>
      subscriptions
        (run_handshake (SubscribeDone channel h1) e1 n1
          (run_handshake (SubscribeDone channel h2) e2 n2
            (snd (subscribe channel h2 (snd (subscribe channel h1 s)))))) channel = Some h1)"
proof -
  have a: "fst (subscribe channel h s) =
      Some (Exception (channel @ '' channel already has an active subscription'')
              500 ''E_MULTIPLE_REDIS_SUBSCRIPTIONS'')
    \<longleftrightarrow> channel \<in> dom (subscriptions s)"
    by (simp add: subscribe_fst)
  have b: "subscriptions (enter drv e s) k = Some g \<and> subscriptions s k \<noteq> Some g \<longrightarrow>
      (\<exists>err count. e = Handshake (SubscribeDone k g) err count \<and> \<not> truthy err)"
    using gained_only [of drv e s k g] by blast
  have c: "fst (subscribe channel h1 s) = None \<and>
      fst (subscribe channel h2 (snd (subscribe channel h1 s))) = None"
    if "channel \<notin> dom (subscriptions s)"
    using that by (simp add: subscribe_fst)
  have d: "subscriptions (run_handshake (SubscribeDone channel h2) e2 n2
          (run_handshake (SubscribeDone channel h1) e1 n1 t)) channel = Some h2 \<and>
      subscriptions (run_handshake (SubscribeDone channel h1) e1 n1
          (run_handshake (SubscribeDone channel h2) e2 n2 t)) channel = Some h1"
    if "\<not> truthy e1" "\<not> truthy e2" for t
    using that by (simp add: handshake_maps)
  show ?thesis
    using a b c d subscribe_twice [of channel s h2 h1] by blast
qed

theorem concurrent_subscribe_witness:
  "''news'' \<notin> dom (subscriptions started) \<and> \<not> truthy Null \<and>
   fst (subscribe ''news'' first_handler started) = None \<and>
   fst (subscribe ''news'' second_handler (snd (subscribe ''news'' first_handler started))) = None \<and>
   subscriptions
     (run_handshake (SubscribeDone ''news'' first_handler) Null (NumV 1)
       (run_handshake (SubscribeDone ''news'' second_handler) Null (NumV 1)
         (snd (subscribe ''news'' second_handler (snd (subscribe ''news'' first_handler started))))))
     ''news'' = Some first_handler \<and>
   subscriptions (enter resolving (Handshake (SubscribeDone ''news'' first_handler) Null (NumV 1)) started)
     ''news'' = Some first_handler \<and>
   subscriptions started ''news'' \<noteq> Some first_handler"
  using concurrent_subscribe [of "''news''" first_handler started resolving
      "Handshake (SubscribeDone ''news'' first_handler) Null (NumV 1)" "''news''" first_handler
      Null Null first_handler second_handler "NumV 1" "NumV 1"]
  by (simp add: started_eval handshake_maps)

end
